theory Spec2Isabelle
  imports Complex_Main "HOL-Library.AList"
begin

section \<open>The retail crawler of WebCrawler.py\<close>

text \<open>
  A shallow embedding of \<^verbatim>\<open>src/WebCrawler.py\<close>: the \<^verbatim>\<open>Product\<close> dataclass, the
  retailer registry \<^verbatim>\<open>RetailCrawlerConfig.RETAILERS\<close>, and the methods
  \<^verbatim>\<open>_setup_selenium\<close>, \<^verbatim>\<open>_scroll_page\<close>, \<^verbatim>\<open>crawl_retailer\<close>, \<^verbatim>\<open>_extract_products\<close>,
  \<^verbatim>\<open>parallel_crawl\<close> and \<^verbatim>\<open>_save_to_csv\<close> of \<^verbatim>\<open>IntelligentWebCrawler\<close>.

  Conventions of the model.
  \<^item> Strings are \<^typ>\<open>string\<close>, lists of 8-bit characters; the digits are the ASCII
    digits (Python's \<^verbatim>\<open>\d\<close> also matches other Unicode decimal digits, which an 8-bit
    character cannot hold).
  \<^item> A Python \<^verbatim>\<open>float\<close> obtained from a decimal text is represented by the rational
    number that text denotes; Python stores the nearest double of it, and the infinite
    double for a text beyond the range of doubles. Rounding keeps the sign and the order.
  \<^item> Every exception is a value of type \<open>error\<close>; an operation that can raise returns a
    sum, \<open>Inl\<close> carrying the exception.
  \<^item> Calls of \<^verbatim>\<open>logging\<close> append a record to a log that the functions return.
  \<^item> The browser is outside the program. It is a parameter: a function from URLs to the
    behaviour of the page found there.
\<close>

subsection \<open>Exceptions and log records\<close>

datatype error =
    NoSuchElementException
  | TimeoutException
  | WebDriverException
  | SessionNotCreatedException
  | KeyError string
  | ValueError string

datatype log_message =
    SetupFailed error
  | NotInitialized
  | NoConfiguration string
  | CrawledPage string nat string
  | PageError string string error
  | ElementError error
  | ExtractionError string error
  | UnitError string error
  | SavedCsv nat string string

datatype log_record = ERROR log_message | WARNING log_message | INFO log_message

subsection \<open>The Product dataclass\<close>

record product =
  name :: string
  price :: rat
  retailer :: string
  category :: string
  original_price :: "rat option"
  discount_percentage :: "rat option"
  product_url :: "string option"
  image_url :: "string option"
  availability :: string

text \<open>\<^verbatim>\<open>Product(name=.., price=.., retailer=..)\<close>: the other fields take the defaults of
  the dataclass.\<close>

definition Product :: "string \<Rightarrow> rat \<Rightarrow> string \<Rightarrow> product" where
  "Product nm pr rt =
     \<lparr>name = nm, price = pr, retailer = rt, category = ''Uncategorized'',
      original_price = None, discount_percentage = None, product_url = None,
      image_url = None, availability = ''Unknown''\<rparr>"

subsection \<open>Strings: strip, the price regular expression, float\<close>

definition is_digit :: "char \<Rightarrow> bool" where
  "is_digit c = (c \<in> set ''0123456789'')"

text \<open>The characters \<^verbatim>\<open>str.strip()\<close> removes, among the 7-bit ones: tab, line feed,
  vertical tab, form feed, carriage return, the four separators 28 to 31, and space.\<close>

definition is_space :: "char \<Rightarrow> bool" where
  "is_space c = (of_char c \<in> set [9, 10, 11, 12, 13, 28, 29, 30, 31, 32 :: nat])"

definition strip :: "string \<Rightarrow> string" where
  "strip s = rev (dropWhile is_space (rev (dropWhile is_space s)))"

text \<open>\<^verbatim>\<open>re.sub(r'[^\d.]', '', s)\<close>: every character that is neither a digit nor a point
  is deleted.\<close>

definition re_sub_price :: "string \<Rightarrow> string" where
  "re_sub_price s = filter (\<lambda>c. is_digit c \<or> c = CHR ''.'') s"

definition digit_val :: "char \<Rightarrow> nat" where
  "digit_val c = of_char c - 48"

fun nat_of_digits :: "nat \<Rightarrow> string \<Rightarrow> nat" where
  "nat_of_digits acc [] = acc"
| "nat_of_digits acc (c # cs) = nat_of_digits (10 * acc + digit_val c) cs"

text \<open>
  \<^verbatim>\<open>float(s)\<close> on the texts the regular expression can leave, those made of digits and
  points: it accepts digits with at most one point and at least one digit
  (\<^verbatim>\<open>12\<close>, \<^verbatim>\<open>12.\<close>, \<^verbatim>\<open>.5\<close>, \<^verbatim>\<open>12.5\<close>) and raises \<^verbatim>\<open>ValueError\<close> on the rest
  (the empty text, \<^verbatim>\<open>.\<close>, \<^verbatim>\<open>1.2.3\<close>). Any other character is answered with
  \<^verbatim>\<open>ValueError\<close> here; the extraction never passes one.
\<close>

definition py_float :: "string \<Rightarrow> error + rat" where
  "py_float s =
     (let ip = takeWhile (\<lambda>c. c \<noteq> CHR ''.'') s;
          fp = drop 1 (dropWhile (\<lambda>c. c \<noteq> CHR ''.'') s)
      in if \<not> list_all is_digit (ip @ fp) \<or> ip @ fp = []
         then Inl (ValueError s)
         else Inr (of_nat (nat_of_digits 0 (ip @ fp)) / 10 ^ length fp))"

text \<open>Line 207: \<^verbatim>\<open>price = float(re.sub(r'[^\d.]', '', price_text))\<close>.\<close>

definition parse_price :: "string \<Rightarrow> error + rat" where
  "parse_price price_text = py_float (re_sub_price price_text)"

subsection \<open>Web elements and configuration dictionaries\<close>

text \<open>
  A \<^verbatim>\<open>WebElement\<close> is what \<^verbatim>\<open>find_element(By.CSS_SELECTOR, sel).text\<close> answers on it:
  the text of the first descendant matching the selector, or the exception raised
  (\<^verbatim>\<open>NoSuchElementException\<close> when nothing matches).
\<close>

type_synonym element = "string \<Rightarrow> error + string"

text \<open>Dictionaries keep their insertion order: association lists. \<^verbatim>\<open>d[k]\<close> raises
  \<^verbatim>\<open>KeyError\<close> on a missing key, \<^verbatim>\<open>d.get(k)\<close> answers \<^verbatim>\<open>None\<close>.\<close>

definition subscript :: "(string \<times> 'v) list \<Rightarrow> string \<Rightarrow> error + 'v" where
  "subscript d k = (case map_of d k of None \<Rightarrow> Inl (KeyError k) | Some v \<Rightarrow> Inr v)"

text \<open>The \<^verbatim>\<open>crawl_strategy\<close> dictionary, read with \<^verbatim>\<open>.get\<close> only: a field that is
  \<open>None\<close> is a key the dictionary does not have. The field \<open>crawl_method\<close> is the key
  \<^verbatim>\<open>'method'\<close>, a word Isabelle reserves.\<close>

record strategy =
  crawl_method :: "string option"
  wait_element :: "string option"
  scroll_pagination :: "bool option"
  infinite_scroll :: "bool option"

text \<open>A retailer's configuration dictionary, with the four keys the shipped
  configurations have. A field that is \<open>None\<close> is a key the dictionary does not have,
  so that subscripting it raises \<^verbatim>\<open>KeyError\<close>.\<close>

record retailer_config =
  homepage :: "string option"
  product_pages :: "string list option"
  crawl_strategy :: "strategy option"
  selectors :: "(string \<times> string) list option"

definition field :: "string \<Rightarrow> 'a option \<Rightarrow> error + 'a" where
  "field k v = (case v of None \<Rightarrow> Inl (KeyError k) | Some x \<Rightarrow> Inr x)"

text \<open>\<^verbatim>\<open>not retailer_config\<close> for a dictionary: true exactly when it has no key.\<close>

definition empty_config :: "retailer_config \<Rightarrow> bool" where
  "empty_config cfg =
     (homepage cfg = None \<and> product_pages cfg = None \<and> crawl_strategy cfg = None
      \<and> selectors cfg = None)"

subsection \<open>The browser\<close>

text \<open>
  What a page does when the driver visits it: whether \<^verbatim>\<open>driver.get\<close> raises, whether the
  ten-second wait for a selector raises (\<^verbatim>\<open>TimeoutException\<close> when nothing matching appears),
  whether the scroll script raises when \<open>n\<close> scrolls were done before, and what
  \<^verbatim>\<open>find_elements\<close> answers for a selector after \<open>n\<close> scrolls (a page may load more
  elements as it is scrolled).
\<close>

record page =
  get_raises :: "error option"
  wait_raises :: "string \<Rightarrow> error option"
  script_raises :: "nat \<Rightarrow> error option"
  elements :: "nat \<Rightarrow> string \<Rightarrow> error + element list"

type_synonym web = "string \<Rightarrow> page"

datatype action = Get string | Wait string | Scroll | Sleep nat | FindElements string

text \<open>The driver session: the page it is on, the scrolls done on that page, and every
  call made on it so far.\<close>

record webdriver =
  location :: string
  scrolled :: nat
  trace :: "action list"

definition driver_get :: "web \<Rightarrow> string \<Rightarrow> webdriver \<Rightarrow> error option \<times> webdriver" where
  "driver_get w url d =
     (case get_raises (w url) of
        Some e \<Rightarrow> (Some e, d\<lparr>trace := trace d @ [Get url]\<rparr>)
      | None \<Rightarrow> (None, d\<lparr>location := url, scrolled := 0, trace := trace d @ [Get url]\<rparr>))"

text \<open>\<^verbatim>\<open>WebDriverWait(driver, 10).until(EC.presence_of_element_located(..))\<close>.\<close>

definition wait_until_present :: "web \<Rightarrow> string \<Rightarrow> webdriver \<Rightarrow> error option \<times> webdriver" where
  "wait_until_present w sel d =
     (wait_raises (w (location d)) sel, d\<lparr>trace := trace d @ [Wait sel]\<rparr>)"

text \<open>\<^verbatim>\<open>driver.execute_script("window.scrollTo(0, document.body.scrollHeight);")\<close>.\<close>

definition execute_script :: "web \<Rightarrow> webdriver \<Rightarrow> error option \<times> webdriver" where
  "execute_script w d =
     (case script_raises (w (location d)) (scrolled d) of
        Some e \<Rightarrow> (Some e, d\<lparr>trace := trace d @ [Scroll]\<rparr>)
      | None \<Rightarrow> (None, d\<lparr>scrolled := Suc (scrolled d), trace := trace d @ [Scroll]\<rparr>))"

definition sleep :: "nat \<Rightarrow> webdriver \<Rightarrow> webdriver" where
  "sleep n d = d\<lparr>trace := trace d @ [Sleep n]\<rparr>"

definition find_elements :: "web \<Rightarrow> string \<Rightarrow> webdriver \<Rightarrow> (error + element list) \<times> webdriver" where
  "find_elements w sel d =
     (elements (w (location d)) (scrolled d) sel, d\<lparr>trace := trace d @ [FindElements sel]\<rparr>)"

subsection \<open>\<^verbatim>\<open>_extract_products\<close>\<close>

text \<open>The body of the inner \<^verbatim>\<open>try\<close> (lines 195 to 213) for one container: the product
  built, or the exception that leaves the body.\<close>

definition extract_product :: "string \<Rightarrow> retailer_config \<Rightarrow> element \<Rightarrow> error + product" where
  "extract_product rt cfg container =
     (case field ''selectors'' (selectors cfg) of Inl e \<Rightarrow> Inl e | Inr sels \<Rightarrow>
     (case subscript sels ''name'' of Inl e \<Rightarrow> Inl e | Inr name_sel \<Rightarrow>
     (case container name_sel of Inl e \<Rightarrow> Inl e | Inr name_text \<Rightarrow>
     (case subscript sels ''price'' of Inl e \<Rightarrow> Inl e | Inr price_sel \<Rightarrow>
     (case container price_sel of Inl e \<Rightarrow> Inl e | Inr price_text \<Rightarrow>
     (case parse_price (strip price_text) of Inl e \<Rightarrow> Inl e | Inr pr \<Rightarrow>
        Inr (Product (strip name_text) pr rt)))))))"

text \<open>The \<^verbatim>\<open>for container in product_containers\<close> loop (lines 193 to 217), with the list
  \<^verbatim>\<open>products\<close> and the log as accumulators.\<close>

fun extract_loop ::
  "string \<Rightarrow> retailer_config \<Rightarrow> element list \<Rightarrow> product list \<Rightarrow> log_record list
   \<Rightarrow> product list \<times> log_record list" where
  "extract_loop rt cfg [] prods lg = (prods, lg)"
| "extract_loop rt cfg (container # rest) prods lg =
     (case extract_product rt cfg container of
        Inr p \<Rightarrow> extract_loop rt cfg rest (prods @ [p]) lg
      | Inl e \<Rightarrow> extract_loop rt cfg rest prods (lg @ [WARNING (ElementError e)]))"

definition extract_products ::
  "web \<Rightarrow> string \<Rightarrow> retailer_config \<Rightarrow> webdriver
   \<Rightarrow> product list \<times> webdriver \<times> log_record list" where
  "extract_products w rt cfg d =
     (case field ''selectors'' (selectors cfg) of
        Inl e \<Rightarrow> ([], d, [ERROR (ExtractionError rt e)])
      | Inr sels \<Rightarrow>
     (case subscript sels ''product_container'' of
        Inl e \<Rightarrow> ([], d, [ERROR (ExtractionError rt e)])
      | Inr container_sel \<Rightarrow>
     (case find_elements w container_sel d of
        (Inl e, d') \<Rightarrow> ([], d', [ERROR (ExtractionError rt e)])
      | (Inr product_containers, d') \<Rightarrow>
          (case extract_loop rt cfg product_containers [] [] of
             (prods, lg) \<Rightarrow> (prods, d', lg)))))"

subsection \<open>\<^verbatim>\<open>_scroll_page\<close> and \<^verbatim>\<open>crawl_retailer\<close>\<close>

text \<open>\<^verbatim>\<open>for _ in range(max_scrolls)\<close>: scroll, then sleep two seconds. An exception of
  the script leaves the loop.\<close>

fun scroll_page :: "web \<Rightarrow> webdriver \<Rightarrow> nat \<Rightarrow> error option \<times> webdriver" where
  "scroll_page w d 0 = (None, d)"
| "scroll_page w d (Suc n) =
     (case execute_script w d of
        (Some e, d') \<Rightarrow> (Some e, d')
      | (None, d') \<Rightarrow> scroll_page w (sleep 2 d') n)"

text \<open>The default of the parameter \<^verbatim>\<open>max_scrolls\<close>; \<^verbatim>\<open>crawl_retailer\<close> never passes
  another value.\<close>

definition max_scrolls :: nat where
  "max_scrolls = 5"

text \<open>The body of the \<^verbatim>\<open>try\<close> of one product page (lines 145 to 162): the products of
  the page, or the exception that leaves the body.\<close>

definition crawl_page ::
  "web \<Rightarrow> string \<Rightarrow> retailer_config \<Rightarrow> string \<Rightarrow> webdriver
   \<Rightarrow> (error + product list) \<times> webdriver \<times> log_record list" where
  "crawl_page w key cfg product_page d =
     (case driver_get w product_page d of
        (Some e, d1) \<Rightarrow> (Inl e, d1, [])
      | (None, d1) \<Rightarrow>
     (case field ''crawl_strategy'' (crawl_strategy cfg) of
        Inl e \<Rightarrow> (Inl e, d1, [])
      | Inr strat \<Rightarrow>
     (case wait_until_present w
             (case wait_element strat of None \<Rightarrow> ''body'' | Some sel \<Rightarrow> sel) d1 of
        (Some e, d2) \<Rightarrow> (Inl e, d2, [])
      | (None, d2) \<Rightarrow>
     (case (if scroll_pagination strat = Some True then scroll_page w d2 max_scrolls
            else (None, d2)) of
        (Some e, d3) \<Rightarrow> (Inl e, d3, [])
      | (None, d3) \<Rightarrow>
          (case extract_products w key cfg d3 of
             (prods, d4, lg) \<Rightarrow> (Inr prods, d4, lg))))))"

text \<open>The \<^verbatim>\<open>for product_page in ..\<close> loop (lines 143 to 165), with the list
  \<^verbatim>\<open>retailer_products\<close> and the log as accumulators.\<close>

fun crawl_pages ::
  "web \<Rightarrow> string \<Rightarrow> retailer_config \<Rightarrow> string list \<Rightarrow> webdriver \<Rightarrow> product list
   \<Rightarrow> log_record list \<Rightarrow> product list \<times> webdriver \<times> log_record list" where
  "crawl_pages w key cfg [] d retailer_products lg = (retailer_products, d, lg)"
| "crawl_pages w key cfg (product_page # rest) d retailer_products lg =
     (case crawl_page w key cfg product_page d of
        (Inr prods, d', l) \<Rightarrow>
          crawl_pages w key cfg rest d' (retailer_products @ prods)
            (lg @ l @ [INFO (CrawledPage key (length prods) product_page)])
      | (Inl e, d', l) \<Rightarrow>
          crawl_pages w key cfg rest d' retailer_products
            (lg @ l @ [ERROR (PageError key product_page e)]))"

text \<open>The crawler object: the driver (\<open>None\<close> when the setup failed), and the two lists
  \<^verbatim>\<open>__init__\<close> creates.\<close>

record crawler =
  driver :: "webdriver option"
  products :: "product list"
  successful_retailers :: "string list"

type_synonym registry = "(string \<times> retailer_config) list"

text \<open>\<^verbatim>\<open>crawl_retailer\<close>: the list returned, or the exception that escapes (the one place
  outside every \<^verbatim>\<open>try\<close> that can raise is \<^verbatim>\<open>retailer_config['product_pages']\<close>).\<close>

definition crawl_retailer ::
  "web \<Rightarrow> registry \<Rightarrow> crawler \<Rightarrow> string
   \<Rightarrow> (error + product list) \<times> crawler \<times> log_record list" where
  "crawl_retailer w reg c retailer_key =
     (case driver c of
        None \<Rightarrow> (Inr [], c, [ERROR NotInitialized])
      | Some d \<Rightarrow>
     (case map_of reg retailer_key of
        None \<Rightarrow> (Inr [], c, [ERROR (NoConfiguration retailer_key)])
      | Some cfg \<Rightarrow>
          if empty_config cfg then (Inr [], c, [ERROR (NoConfiguration retailer_key)])
          else
     (case field ''product_pages'' (product_pages cfg) of
        Inl e \<Rightarrow> (Inl e, c, [])
      | Inr pages \<Rightarrow>
          (case crawl_pages w retailer_key cfg pages d [] [] of
             (prods, d', lg) \<Rightarrow> (Inr prods, c\<lparr>driver := Some d'\<rparr>, lg)))))"

subsection \<open>\<^verbatim>\<open>_setup_selenium\<close> and \<^verbatim>\<open>__init__\<close>\<close>




subsection \<open>\<^verbatim>\<open>parallel_crawl\<close>\<close>






subsection \<open>The registry \<^verbatim>\<open>RetailCrawlerConfig.RETAILERS\<close>\<close>

definition pick_n_pay :: retailer_config where
  "pick_n_pay =
     \<lparr>homepage = Some ''https://www.pnp.co.za'',
      product_pages = Some
        [''https://www.pnp.co.za/pnpstorefront/pnp/en/All-Products'',
         ''https://www.pnp.co.za/pnpstorefront/pnp/en/Groceries'',
         ''https://www.pnp.co.za/pnpstorefront/pnp/en/Personal-Care''],
      crawl_strategy = Some
        \<lparr>crawl_method = Some ''selenium'', wait_element = Some ''.product-grid'',
         scroll_pagination = Some True, infinite_scroll = None\<rparr>,
      selectors = Some
        [(''product_container'', ''.product-item''), (''name'', ''.product-name''),
         (''price'', ''.price''), (''category'', ''.category-breadcrumb'')]\<rparr>"

definition checkers :: retailer_config where
  "checkers =
     \<lparr>homepage = Some ''https://www.checkers.co.za'',
      product_pages = Some
        [''https://www.checkers.co.za/all-products'',
         ''https://www.checkers.co.za/groceries'',
         ''https://www.checkers.co.za/personal-care''],
      crawl_strategy = Some
        \<lparr>crawl_method = Some ''selenium'', wait_element = Some ''.product-grid'',
         scroll_pagination = Some True, infinite_scroll = None\<rparr>,
      selectors = Some
        [(''product_container'', ''.product-card''), (''name'', ''.product-title''),
         (''price'', ''.current-price''), (''category'', ''.breadcrumb-item'')]\<rparr>"

definition woolworths :: retailer_config where
  "woolworths =
     \<lparr>homepage = Some ''https://www.woolworths.co.za'',
      product_pages = Some
        [''https://www.woolworths.co.za/cat/Food/_/N-rhf7'',
         ''https://www.woolworths.co.za/cat/Personal-Care/_/N-1z141z6''],
      crawl_strategy = Some
        \<lparr>crawl_method = Some ''selenium'', wait_element = Some ''.product-list'',
         scroll_pagination = None, infinite_scroll = Some True\<rparr>,
      selectors = Some
        [(''product_container'', ''.product-item''), (''name'', ''.product-name''),
         (''price'', ''.price''), (''category'', ''.breadcrumb-item'')]\<rparr>"

definition RETAILERS :: registry where
  "RETAILERS =
     [(''pick_n_pay'', pick_n_pay), (''checkers'', checkers), (''woolworths'', woolworths)]"

subsection \<open>Example elements and pages\<close>

text \<open>Containers as the selectors of \<open>pick_n_pay\<close> see them: a name under
  \<^verbatim>\<open>.product-name\<close>, a price under \<^verbatim>\<open>.price\<close>, a category under
  \<^verbatim>\<open>.category-breadcrumb\<close>; any other selector finds nothing.\<close>

definition listing_item :: "string option \<Rightarrow> string option \<Rightarrow> string option \<Rightarrow> element" where
  "listing_item nm pr cat sel =
     (case (if sel = ''.product-name'' then nm
            else if sel = ''.price'' then pr
            else if sel = ''.category-breadcrumb'' then cat
            else None) of
        None \<Rightarrow> Inl NoSuchElementException
      | Some t \<Rightarrow> Inr t)"

definition milk :: element where
  "milk = listing_item (Some ''Milk 1L'') (Some ''R 19.99'') (Some ''Dairy'')"

definition bread :: element where
  "bread = listing_item (Some '' Bread '') (Some ''$1,299.99'') None"

definition sold_out :: element where
  "sold_out = listing_item (Some ''Eggs'') (Some ''Out of stock'') None"

definition nameless :: element where
  "nameless = listing_item None (Some ''5'') None"


text \<open>A page that loads and lists the given containers under \<^verbatim>\<open>.product-item\<close>, however
  far it is scrolled; a page whose wait times out; a page that shows one container more
  with every scroll.\<close>

definition listing :: "element list \<Rightarrow> page" where
  "listing cs =
     \<lparr>get_raises = None, wait_raises = (\<lambda>sel. None), script_raises = (\<lambda>n. None),
      elements = (\<lambda>n sel. if sel = ''.product-item'' then Inr cs else Inr [])\<rparr>"

definition timing_out :: page where
  "timing_out =
     \<lparr>get_raises = None, wait_raises = (\<lambda>sel. Some TimeoutException),
      script_raises = (\<lambda>n. None), elements = (\<lambda>n sel. Inr [])\<rparr>"


text \<open>The web in which every URL answers with the same listing.\<close>

definition uniform_web :: "element list \<Rightarrow> web" where
  "uniform_web cs url = listing cs"


text \<open>The three product pages of \<open>pick_n_pay\<close>, the second of which times out, and the
  same pages with a second page that loads and lists nothing.\<close>

definition pnp_web :: web where
  "pnp_web url =
     (if url = ''https://www.pnp.co.za/pnpstorefront/pnp/en/All-Products'' then listing [milk]
      else if url = ''https://www.pnp.co.za/pnpstorefront/pnp/en/Groceries'' then timing_out
      else if url = ''https://www.pnp.co.za/pnpstorefront/pnp/en/Personal-Care''
        then listing [bread]
      else listing [])"

definition quiet_web :: web where
  "quiet_web url =
     (if url = ''https://www.pnp.co.za/pnpstorefront/pnp/en/All-Products'' then listing [milk]
      else if url = ''https://www.pnp.co.za/pnpstorefront/pnp/en/Personal-Care''
        then listing [bread]
      else listing [])"





definition new_session :: webdriver where
  "new_session = \<lparr>location = ''data:,'', scrolled = 0, trace = []\<rparr>"

definition new_crawler :: crawler where
  "new_crawler = \<lparr>driver = Some new_session, products = [], successful_retailers = []\<rparr>"

text \<open>The number of scroll scripts a session has run.\<close>

definition scroll_count :: "webdriver \<Rightarrow> nat" where
  "scroll_count d = length (filter (\<lambda>a. a = Scroll) (trace d))"

section \<open>Properties\<close>

subsection \<open>Price texts\<close>







lemma py_float_nonneg: "py_float s = Inr v \<Longrightarrow> 0 \<le> v"
  by (auto simp add: py_float_def Let_def split: if_splits)

lemma parse_price_nonneg: "parse_price t = Inr v \<Longrightarrow> 0 \<le> v"
  unfolding parse_price_def by (rule py_float_nonneg)

lemmas price_eval =
  parse_price_def re_sub_price_def py_float_def is_digit_def digit_val_def strip_def
  is_space_def

subsection \<open>One container, and the loop over the containers\<close>

lemma extract_product_price:
  assumes "extract_product rt cfg container = Inr p"
  shows "\<exists>sels price_sel t.
           selectors cfg = Some sels \<and> map_of sels ''price'' = Some price_sel
           \<and> container price_sel = Inr t \<and> parse_price (strip t) = Inr (price p)"
  using assms
  by (auto simp add: extract_product_def field_def subscript_def Product_def
      split: option.splits sum.splits)


lemma extract_product_defaults:
  assumes "extract_product rt cfg container = Inr p"
  shows "\<exists>nm pr. p = Product nm pr rt"
  using assms
  by (auto simp add: extract_product_def split: sum.splits)

lemma extract_product_bad_price:
  assumes "selectors cfg = Some sels" and "map_of sels ''price'' = Some price_sel"
    and "container price_sel = Inr t" and "parse_price (strip t) = Inl e"
  shows "\<exists>e'. extract_product rt cfg container = Inl e'"
  using assms
  by (auto simp add: extract_product_def field_def subscript_def
      split: option.splits sum.splits)


lemma extract_loop_acc:
  "extract_loop rt cfg cs prods lg =
     (prods @ fst (extract_loop rt cfg cs [] []), lg @ snd (extract_loop rt cfg cs [] []))"
proof (induction cs arbitrary: prods lg)
  case Nil
  show ?case by simp
next
  case (Cons c cs)
  show ?case
  proof (cases "extract_product rt cfg c")
    case (Inl e)
    then show ?thesis
      using Cons.IH [of prods "lg @ [WARNING (ElementError e)]"]
        Cons.IH [of "[]" "[WARNING (ElementError e)]"]
      by simp
  next
    case (Inr p)
    then show ?thesis
      using Cons.IH [of "prods @ [p]" lg] Cons.IH [of "[p]" "[]"]
      by simp
  qed
qed

lemma extract_loop_products:
  "fst (extract_loop rt cfg cs [] []) =
     List.map_filter
       (\<lambda>c. case extract_product rt cfg c of Inr p \<Rightarrow> Some p | Inl e \<Rightarrow> None) cs"
proof (induction cs)
  case Nil
  show ?case by simp
next
  case (Cons c cs)
  show ?case
  proof (cases "extract_product rt cfg c")
    case (Inl e)
    then show ?thesis
      using Cons.IH extract_loop_acc [of rt cfg cs "[]" "[WARNING (ElementError e)]"]
      by simp
  next
    case (Inr p)
    then show ?thesis
      using Cons.IH extract_loop_acc [of rt cfg cs "[p]" "[]"]
      by simp
  qed
qed

lemma extract_loop_log:
  "snd (extract_loop rt cfg cs [] []) =
     List.map_filter
       (\<lambda>c. case extract_product rt cfg c of
               Inr p \<Rightarrow> None | Inl e \<Rightarrow> Some (WARNING (ElementError e))) cs"
proof (induction cs)
  case Nil
  show ?case by simp
next
  case (Cons c cs)
  show ?case
  proof (cases "extract_product rt cfg c")
    case (Inl e)
    then show ?thesis
      using Cons.IH extract_loop_acc [of rt cfg cs "[]" "[WARNING (ElementError e)]"]
      by simp
  next
    case (Inr p)
    then show ?thesis
      using Cons.IH extract_loop_acc [of rt cfg cs "[p]" "[]"]
      by simp
  qed
qed

lemma map_filter_member:
  "y \<in> set (List.map_filter f xs) \<longleftrightarrow> (\<exists>x\<in>set xs. f x = Some y)"
  by (induction xs) (auto split: option.splits)

lemma map_filter_append:
  "List.map_filter f (xs @ ys) = List.map_filter f xs @ List.map_filter f ys"
  by (induction xs) (auto split: option.splits)

lemma extract_loop_member:
  assumes "p \<in> set (fst (extract_loop rt cfg cs [] []))"
  shows "\<exists>c\<in>set cs. extract_product rt cfg c = Inr p"
proof -
  from assms obtain c where c: "c \<in> set cs"
    and "(case extract_product rt cfg c of Inr p \<Rightarrow> Some p | Inl e \<Rightarrow> None) = Some p"
    unfolding extract_loop_products map_filter_member by blast
  then have "extract_product rt cfg c = Inr p"
    by (cases "extract_product rt cfg c") simp_all
  with c show ?thesis by blast
qed

lemma extract_products_found:
  assumes "selectors cfg = Some sels" and "map_of sels ''product_container'' = Some csel"
    and "elements (w (location d)) (scrolled d) csel = Inr cs"
  shows "fst (extract_products w rt cfg d) = fst (extract_loop rt cfg cs [] [])"
  using assms
  by (simp add: extract_products_def field_def subscript_def find_elements_def
      split: prod.splits)

lemma extract_products_cases:
  "fst (extract_products w rt cfg d) = []
   \<or> (\<exists>cs. fst (extract_products w rt cfg d) = fst (extract_loop rt cfg cs [] []))"
proof (cases "field ''selectors'' (selectors cfg)")
  case (Inl e)
  then show ?thesis by (simp add: extract_products_def)
next
  case sel: (Inr sels)
  show ?thesis
  proof (cases "subscript sels ''product_container''")
    case (Inl e)
    then show ?thesis using sel by (simp add: extract_products_def)
  next
    case csel: (Inr container_sel)
    obtain found d' where f: "find_elements w container_sel d = (found, d')"
      by (cases "find_elements w container_sel d")
    show ?thesis
    proof (cases found)
      case (Inl e)
      then show ?thesis using sel csel f by (simp add: extract_products_def)
    next
      case (Inr cs)
      then have "fst (extract_products w rt cfg d) = fst (extract_loop rt cfg cs [] [])"
        using sel csel f by (simp add: extract_products_def split: prod.splits)
      then show ?thesis by blast
    qed
  qed
qed

lemma extract_products_member:
  assumes "p \<in> set (fst (extract_products w rt cfg d))"
  shows "\<exists>c. extract_product rt cfg c = Inr p"
proof -
  from assms extract_products_cases [of w rt cfg d]
  obtain cs where "p \<in> set (fst (extract_loop rt cfg cs [] []))"
    by auto
  then show ?thesis using extract_loop_member by blast
qed

subsection \<open>The example containers under the selectors of \<open>pick_n_pay\<close>\<close>

lemmas container_eval =
  extract_product_def pick_n_pay_def field_def subscript_def listing_item_def price_eval

lemma extract_milk:
  "extract_product ''pick_n_pay'' pick_n_pay milk = Inr (Product ''Milk 1L'' 19.99 ''pick_n_pay'')"
  by (simp add: milk_def container_eval)

lemma extract_bread:
  "extract_product ''pick_n_pay'' pick_n_pay bread = Inr (Product ''Bread'' 1299.99 ''pick_n_pay'')"
  by (simp add: bread_def container_eval)

lemma extract_sold_out:
  "extract_product ''pick_n_pay'' pick_n_pay sold_out = Inl (ValueError [])"
  by (simp add: sold_out_def container_eval)

lemma extract_nameless:
  "extract_product ''pick_n_pay'' pick_n_pay nameless = Inl NoSuchElementException"
  by (simp add: nameless_def container_eval)


lemma pick_n_pay_selectors:
  "selectors pick_n_pay = Some [(''product_container'', ''.product-item''),
       (''name'', ''.product-name''), (''price'', ''.price''),
       (''category'', ''.category-breadcrumb'')]"
  by (simp add: pick_n_pay_def)

lemma extract_products_uniform:
  "fst (extract_products (uniform_web cs) ''pick_n_pay'' pick_n_pay d) =
     fst (extract_loop ''pick_n_pay'' pick_n_pay cs [] [])"
  by (rule extract_products_found [OF pick_n_pay_selectors, where csel = "''.product-item''"])
    (simp_all add: uniform_web_def listing_def)

subsection \<open>Scrolling and one product page\<close>

lemma scroll_page_runs:
  assumes "\<forall>k. script_raises (w (location d)) k = None"
  shows "scroll_page w d n =
           (None, d\<lparr>scrolled := scrolled d + n,
                    trace := trace d @ concat (replicate n [Scroll, Sleep 2])\<rparr>)"
  using assms
proof (induction n arbitrary: d)
  case 0
  show ?case by simp
next
  case (Suc n)
  let ?d' = "sleep 2 (d\<lparr>scrolled := Suc (scrolled d), trace := trace d @ [Scroll]\<rparr>)"
  have loc: "location ?d' = location d" by (simp add: sleep_def)
  have step: "scroll_page w d (Suc n) = scroll_page w ?d' n"
    using Suc.prems by (simp add: execute_script_def)
  have "scroll_page w ?d' n =
          (None, ?d'\<lparr>scrolled := scrolled ?d' + n,
                      trace := trace ?d' @ concat (replicate n [Scroll, Sleep 2])\<rparr>)"
    using Suc.prems loc by (intro Suc.IH) simp
  with step show ?case by (simp add: sleep_def)
qed





text \<open>The page body when nothing on the way to the extraction raises.\<close>

lemma crawl_page_loaded:
  assumes "get_raises (w product_page) = None" and "crawl_strategy cfg = Some strat"
    and "wait_raises (w product_page)
           (case wait_element strat of None \<Rightarrow> ''body'' | Some sel \<Rightarrow> sel) = None"
    and "\<forall>k. script_raises (w product_page) k = None"
  shows "crawl_page w key cfg product_page d =
           (case extract_products w key cfg
                   \<lparr>location = product_page,
                    scrolled = (if scroll_pagination strat = Some True then max_scrolls else 0),
                    trace = trace d
                      @ [Get product_page,
                         Wait (case wait_element strat of None \<Rightarrow> ''body'' | Some sel \<Rightarrow> sel)]
                      @ concat (replicate
                          (if scroll_pagination strat = Some True then max_scrolls else 0)
                          [Scroll, Sleep 2])\<rparr> of
              (prods, d4, lg) \<Rightarrow> (Inr prods, d4, lg))"
proof -
  let ?sel = "case wait_element strat of None \<Rightarrow> ''body'' | Some sel \<Rightarrow> sel"
  let ?d2 = "\<lparr>location = product_page, scrolled = 0,
              trace = trace d @ [Get product_page, Wait ?sel]\<rparr>"
  have g: "driver_get w product_page d =
             (None, d\<lparr>location := product_page, scrolled := 0,
                      trace := trace d @ [Get product_page]\<rparr>)"
    using assms(1) by (simp add: driver_get_def)
  have wt: "wait_until_present w ?sel
              (d\<lparr>location := product_page, scrolled := 0,
                  trace := trace d @ [Get product_page]\<rparr>) = (None, ?d2)"
    using assms(3) by (simp add: wait_until_present_def)
  have sc: "scroll_page w ?d2 max_scrolls =
              (None, ?d2\<lparr>scrolled := scrolled ?d2 + max_scrolls,
                     trace := trace ?d2 @ concat (replicate max_scrolls [Scroll, Sleep 2])\<rparr>)"
    using assms(4) by (intro scroll_page_runs) simp
  show ?thesis
    unfolding crawl_page_def g using assms(2) wt sc
    by (simp add: field_def)
qed

lemma crawl_page_get_fails:
  assumes "get_raises (w product_page) = Some e"
  shows "crawl_page w key cfg product_page d =
           (Inl e, d\<lparr>trace := trace d @ [Get product_page]\<rparr>, [])"
  using assms by (simp add: crawl_page_def driver_get_def)

lemma crawl_page_wait_fails:
  assumes "get_raises (w product_page) = None" and "crawl_strategy cfg = Some strat"
    and "wait_raises (w product_page)
           (case wait_element strat of None \<Rightarrow> ''body'' | Some sel \<Rightarrow> sel) = Some e"
  shows "fst (crawl_page w key cfg product_page d) = Inl e
         \<and> snd (snd (crawl_page w key cfg product_page d)) = []
         \<and> scroll_count (fst (snd (crawl_page w key cfg product_page d))) = scroll_count d"
  using assms
  by (simp add: crawl_page_def driver_get_def field_def wait_until_present_def scroll_count_def)

subsection \<open>What a page yields does not depend on the calls made before\<close>

lemma scroll_page_same_page:
  assumes "location d = location d'" and "scrolled d = scrolled d'"
  shows "fst (scroll_page w d n) = fst (scroll_page w d' n)
         \<and> location (snd (scroll_page w d n)) = location (snd (scroll_page w d' n))
         \<and> scrolled (snd (scroll_page w d n)) = scrolled (snd (scroll_page w d' n))"
  using assms
proof (induction n arbitrary: d d')
  case 0
  then show ?case by simp
next
  case (Suc n)
  show ?case
  proof (cases "script_raises (w (location d)) (scrolled d)")
    case (Some e)
    then show ?thesis using Suc.prems by (simp add: execute_script_def)
  next
    case None
    let ?nx = "\<lambda>d. sleep 2 (d\<lparr>scrolled := Suc (scrolled d), trace := trace d @ [Scroll]\<rparr>)"
    have a: "scroll_page w d (Suc n) = scroll_page w (?nx d) n"
      using None by (simp add: execute_script_def)
    have b: "scroll_page w d' (Suc n) = scroll_page w (?nx d') n"
      using None Suc.prems by (simp add: execute_script_def)
    have "location (?nx d) = location (?nx d')" "scrolled (?nx d) = scrolled (?nx d')"
      using Suc.prems by (simp_all add: sleep_def)
    from Suc.IH [OF this] show ?thesis unfolding a b .
  qed
qed

lemma extract_products_same_page:
  assumes "location d = location d'" and "scrolled d = scrolled d'"
  shows "fst (extract_products w rt cfg d) = fst (extract_products w rt cfg d')
         \<and> snd (snd (extract_products w rt cfg d)) = snd (snd (extract_products w rt cfg d'))"
  using assms
  by (auto simp add: extract_products_def find_elements_def split: sum.splits prod.splits)

lemma crawl_page_any_session:
  "fst (crawl_page w key cfg pg d) = fst (crawl_page w key cfg pg d')
   \<and> snd (snd (crawl_page w key cfg pg d)) = snd (snd (crawl_page w key cfg pg d'))"
proof (cases "get_raises (w pg)")
  case (Some e)
  then show ?thesis by (simp add: crawl_page_get_fails)
next
  case loaded: None
  show ?thesis
  proof (cases "crawl_strategy cfg")
    case None
    then show ?thesis using loaded by (simp add: crawl_page_def driver_get_def field_def)
  next
    case strat: (Some strat)
    let ?sel = "case wait_element strat of None \<Rightarrow> ''body'' | Some sel \<Rightarrow> sel"
    show ?thesis
    proof (cases "wait_raises (w pg) ?sel")
      case (Some e)
      then show ?thesis using loaded strat
        by (simp add: crawl_page_def driver_get_def field_def wait_until_present_def)
    next
      case present: None
      let ?d2 = "\<lambda>d. d\<lparr>location := pg, scrolled := 0, trace := trace d @ [Get pg, Wait ?sel]\<rparr>"
      let ?S = "\<lambda>d. if scroll_pagination strat = Some True then scroll_page w (?d2 d) max_scrolls
                     else (None, ?d2 d)"
      have unfold: "crawl_page w key cfg pg d0 =
          (case ?S d0 of
             (Some e, d3) \<Rightarrow> (Inl e, d3, [])
           | (None, d3) \<Rightarrow>
               (case extract_products w key cfg d3 of
                  (prods, d4, lg) \<Rightarrow> (Inr prods, d4, lg)))" for d0
        using loaded strat present
        by (simp add: crawl_page_def driver_get_def field_def wait_until_present_def)
      have same: "fst (?S d) = fst (?S d')
          \<and> location (snd (?S d)) = location (snd (?S d'))
          \<and> scrolled (snd (?S d)) = scrolled (snd (?S d'))"
        using scroll_page_same_page [of "?d2 d" "?d2 d'" w max_scrolls] by simp
      obtain r d3 where s: "?S d = (r, d3)" by (cases "?S d")
      obtain r' d3' where s': "?S d' = (r', d3')" by (cases "?S d'")
      from same s s' have eq: "r' = r" "location d3 = location d3'" "scrolled d3 = scrolled d3'"
        by simp_all
      show ?thesis
      proof (cases r)
        case (Some e)
        then show ?thesis unfolding unfold s s' eq(1) by simp
      next
        case None
        then show ?thesis
          unfolding unfold s s' eq(1)
          using extract_products_same_page [OF eq(2,3), of w key cfg]
          by (simp add: split_beta)
      qed
    qed
  qed
qed

subsection \<open>The loop over the product pages\<close>

lemma crawl_pages_products:
  "fst (crawl_pages w key cfg pages d acc lg) =
     acc @ concat (map (\<lambda>pg. case fst (crawl_page w key cfg pg d0) of
                               Inr prods \<Rightarrow> prods | Inl e \<Rightarrow> []) pages)"
proof (induction pages arbitrary: d acc lg)
  case Nil
  show ?case by simp
next
  case (Cons pg pages)
  obtain r d' l where c: "crawl_page w key cfg pg d = (r, d', l)"
    by (cases "crawl_page w key cfg pg d")
  have r: "fst (crawl_page w key cfg pg d0) = r"
    using crawl_page_any_session [of w key cfg pg d0 d] c by simp
  show ?case
    using c r Cons.IH by (cases r) simp_all
qed

lemma crawl_pages_log_grows:
  "set lg \<subseteq> set (snd (snd (crawl_pages w key cfg pages d acc lg)))"
proof (induction pages arbitrary: d acc lg)
  case Nil
  show ?case by simp
next
  case (Cons pg pages)
  obtain r d' l where c: "crawl_page w key cfg pg d = (r, d', l)"
    by (cases "crawl_page w key cfg pg d")
  show ?case
  proof (cases r)
    case (Inl e)
    then show ?thesis
      using c Cons.IH [where d = d' and acc = acc and lg = "lg @ l @ [ERROR (PageError key pg e)]"]
      by simp
  next
    case (Inr prods)
    then show ?thesis
      using c Cons.IH [where d = d' and acc = "acc @ prods"
          and lg = "lg @ l @ [INFO (CrawledPage key (length prods) pg)]"]
      by simp
  qed
qed

lemma crawl_pages_logs_failures:
  assumes "pg \<in> set pages" and "fst (crawl_page w key cfg pg d0) = Inl e"
  shows "ERROR (PageError key pg e) \<in> set (snd (snd (crawl_pages w key cfg pages d acc lg)))"
  using assms(1)
proof (induction pages arbitrary: d acc lg)
  case Nil
  then show ?case by simp
next
  case (Cons pg' pages)
  obtain r d' l where c: "crawl_page w key cfg pg' d = (r, d', l)"
    by (cases "crawl_page w key cfg pg' d")
  have r: "fst (crawl_page w key cfg pg' d0) = r"
    using crawl_page_any_session [of w key cfg pg' d0 d] c by simp
  show ?case
  proof (cases "pg = pg'")
    case True
    with r assms(2) have "r = Inl e" by simp
    then have "crawl_pages w key cfg (pg' # pages) d acc lg =
        crawl_pages w key cfg pages d' acc (lg @ l @ [ERROR (PageError key pg' e)])"
      using c by simp
    then show ?thesis
      using crawl_pages_log_grows [where lg = "lg @ l @ [ERROR (PageError key pg' e)]" and w = w
          and key = key and cfg = cfg and pages = pages and d = d' and acc = acc]
        True
      by auto
  next
    case False
    with Cons.prems have "pg \<in> set pages" by simp
    then show ?thesis using c Cons.IH by (cases r) simp_all
  qed
qed

subsection \<open>Claims about the extraction\<close>




text \<open>
  C2. The loop over the containers of a page builds, in order, the products of exactly the
  containers whose body raised nothing, and logs one warning for each of the others. A
  container that fails, by its name or by its price, is the only one left out: the
  products are those of the containers before it followed by those of the containers
  after it. The products a page extraction returns are the ones of this loop, run on the
  containers the driver found.
\<close>

theorem extract_loop_isolates_failures:
  "fst (extract_loop rt cfg cs [] []) =
     List.map_filter
       (\<lambda>c. case extract_product rt cfg c of Inr p \<Rightarrow> Some p | Inl e \<Rightarrow> None) cs
   \<and> snd (extract_loop rt cfg cs [] []) =
     List.map_filter
       (\<lambda>c. case extract_product rt cfg c of
               Inr p \<Rightarrow> None | Inl e \<Rightarrow> Some (WARNING (ElementError e))) cs
   \<and> (extract_product rt cfg bad = Inl e \<longrightarrow>
        fst (extract_loop rt cfg (before @ bad # after) [] []) =
          fst (extract_loop rt cfg before [] []) @ fst (extract_loop rt cfg after [] [])
        \<and> snd (extract_loop rt cfg (before @ bad # after) [] []) =
          snd (extract_loop rt cfg before [] []) @ WARNING (ElementError e)
            # snd (extract_loop rt cfg after [] []))
   \<and> (selectors cfg = Some sels \<and> map_of sels ''product_container'' = Some container_sel
        \<and> elements (w (location d)) (scrolled d) container_sel = Inr cs
      \<longrightarrow> fst (extract_products w rt cfg d) = fst (extract_loop rt cfg cs [] []))"
proof -
  have "fst (extract_loop rt cfg (before @ bad # after) [] []) =
          fst (extract_loop rt cfg before [] []) @ fst (extract_loop rt cfg after [] [])
        \<and> snd (extract_loop rt cfg (before @ bad # after) [] []) =
          snd (extract_loop rt cfg before [] []) @ WARNING (ElementError e)
            # snd (extract_loop rt cfg after [] [])"
    if "extract_product rt cfg bad = Inl e"
    using that by (simp add: extract_loop_products extract_loop_log map_filter_append)
  then show ?thesis
    using extract_loop_products [of rt cfg cs] extract_loop_log [of rt cfg cs]
      extract_products_found [of cfg sels container_sel w d cs rt]
    by blast
qed

theorem extract_loop_isolates_failures_witness:
  "extract_product ''pick_n_pay'' pick_n_pay nameless = Inl NoSuchElementException
   \<and> fst (extract_loop ''pick_n_pay'' pick_n_pay ([milk] @ nameless # [bread]) [] []) =
       fst (extract_loop ''pick_n_pay'' pick_n_pay [milk] [] [])
       @ fst (extract_loop ''pick_n_pay'' pick_n_pay [bread] [] [])
   \<and> snd (extract_loop ''pick_n_pay'' pick_n_pay ([milk] @ nameless # [bread]) [] []) =
       snd (extract_loop ''pick_n_pay'' pick_n_pay [milk] [] [])
       @ WARNING (ElementError NoSuchElementException)
       # snd (extract_loop ''pick_n_pay'' pick_n_pay [bread] [] [])
   \<and> elements (uniform_web [milk, nameless, bread] (location new_session))
         (scrolled new_session) ''.product-item'' = Inr [milk, nameless, bread]
   \<and> fst (extract_products (uniform_web [milk, nameless, bread]) ''pick_n_pay'' pick_n_pay
         new_session) =
       fst (extract_loop ''pick_n_pay'' pick_n_pay [milk, nameless, bread] [] [])"
proof -
  have a: "extract_product ''pick_n_pay'' pick_n_pay nameless = Inl NoSuchElementException"
    by (simp add: extract_product_def pick_n_pay_def field_def subscript_def nameless_def
        listing_item_def)
  have b: "selectors pick_n_pay = Some [(''product_container'', ''.product-item''),
       (''name'', ''.product-name''), (''price'', ''.price''),
       (''category'', ''.category-breadcrumb'')]"
    by (simp add: pick_n_pay_def)
  have c: "map_of [(''product_container'', ''.product-item''),
       (''name'', ''.product-name''), (''price'', ''.price''),
       (''category'', ''.category-breadcrumb'')] ''product_container'' = Some ''.product-item''"
    by simp
  have d: "elements (uniform_web [milk, nameless, bread] (location new_session))
         (scrolled new_session) ''.product-item'' = Inr [milk, nameless, bread]"
    by (simp add: uniform_web_def listing_def)
  note r = extract_loop_isolates_failures [where rt = "''pick_n_pay''" and cfg = pick_n_pay
      and bad = nameless and e = NoSuchElementException and before = "[milk]"
      and after = "[bread]" and cs = "[milk, nameless, bread]"
      and w = "uniform_web [milk, nameless, bread]" and d = new_session
      and container_sel = "''.product-item''"
      and sels = "[(''product_container'', ''.product-item''),
          (''name'', ''.product-name''), (''price'', ''.price''),
          (''category'', ''.category-breadcrumb'')]"]
  from r a b c d show ?thesis by blast
qed

text \<open>
  C6. Every product a page extraction returns was built from a container whose price text,
  stripped, parsed: its price is the value of that parse and is not negative. A container
  whose price text does not parse builds no product at all.
\<close>

theorem product_price_is_parsed:
  "(p \<in> set (fst (extract_products w rt cfg d)) \<longrightarrow>
      0 \<le> price p
      \<and> (\<exists>container sels price_sel t.
            extract_product rt cfg container = Inr p
            \<and> selectors cfg = Some sels \<and> map_of sels ''price'' = Some price_sel
            \<and> container price_sel = Inr t \<and> parse_price (strip t) = Inr (price p)))
   \<and> (selectors cfg = Some sels' \<and> map_of sels' ''price'' = Some price_sel'
        \<and> container' price_sel' = Inr t' \<and> parse_price (strip t') = Inl e
      \<longrightarrow> (\<forall>q. extract_product rt cfg container' \<noteq> Inr q))"
proof -
  have first: "0 \<le> price p
      \<and> (\<exists>container sels price_sel t.
            extract_product rt cfg container = Inr p
            \<and> selectors cfg = Some sels \<and> map_of sels ''price'' = Some price_sel
            \<and> container price_sel = Inr t \<and> parse_price (strip t) = Inr (price p))"
    if "p \<in> set (fst (extract_products w rt cfg d))"
  proof -
    from extract_products_member [OF that]
    obtain c where c: "extract_product rt cfg c = Inr p" by blast
    from extract_product_price [OF c]
    obtain sels price_sel t where s: "selectors cfg = Some sels"
      "map_of sels ''price'' = Some price_sel" "c price_sel = Inr t"
      "parse_price (strip t) = Inr (price p)"
      by blast
    from s(4) have "0 \<le> price p" by (rule parse_price_nonneg)
    with c s show ?thesis by blast
  qed
  have second: "\<forall>q. extract_product rt cfg container' \<noteq> Inr q"
    if "selectors cfg = Some sels'" "map_of sels' ''price'' = Some price_sel'"
      "container' price_sel' = Inr t'" "parse_price (strip t') = Inl e"
    using that extract_product_bad_price [of cfg sels' price_sel' container' t' e rt]
    by auto
  from first second show ?thesis by blast
qed

theorem product_price_is_parsed_witness:
  "Product ''Milk 1L'' 19.99 ''pick_n_pay''
     \<in> set (fst (extract_products (uniform_web [milk, sold_out]) ''pick_n_pay'' pick_n_pay
           new_session))
   \<and> 0 \<le> price (Product ''Milk 1L'' 19.99 ''pick_n_pay'')
   \<and> sold_out ''.price'' = Inr ''Out of stock''
   \<and> parse_price (strip ''Out of stock'') = Inl (ValueError [])
   \<and> (\<forall>q. extract_product ''pick_n_pay'' pick_n_pay sold_out \<noteq> Inr q)"
proof -
  have a: "Product ''Milk 1L'' 19.99 ''pick_n_pay''
     \<in> set (fst (extract_products (uniform_web [milk, sold_out]) ''pick_n_pay'' pick_n_pay
           new_session))"
    by (simp add: extract_products_uniform extract_milk extract_sold_out)
  have b: "map_of [(''product_container'', ''.product-item''),
       (''name'', ''.product-name''), (''price'', ''.price''),
       (''category'', ''.category-breadcrumb'')] ''price'' = Some ''.price''"
    by simp
  have c: "sold_out ''.price'' = Inr ''Out of stock''"
    by (simp add: sold_out_def listing_item_def)
  have d: "parse_price (strip ''Out of stock'') = Inl (ValueError [])"
    by (simp add: price_eval)
  note r = product_price_is_parsed [where p = "Product ''Milk 1L'' 19.99 ''pick_n_pay''"
      and w = "uniform_web [milk, sold_out]" and rt = "''pick_n_pay''" and cfg = pick_n_pay
      and d = new_session and container' = sold_out and price_sel' = "''.price''"
      and t' = "''Out of stock''" and e = "ValueError []"
      and sels' = "[(''product_container'', ''.product-item''),
          (''name'', ''.product-name''), (''price'', ''.price''),
          (''category'', ''.category-breadcrumb'')]"]
  from r a b c d pick_n_pay_selectors show ?thesis by blast
qed




text \<open>
  C9, as the code has it. A container is read for its name and its price only. Every
  product a page extraction returns carries the retailer it was asked for and the defaults
  of the dataclass in all other fields: the category \<^verbatim>\<open>Uncategorized\<close>, the availability
  \<^verbatim>\<open>Unknown\<close>, and no original price, discount, product URL or image URL.
\<close>

theorem product_optional_fields_are_defaults:
  "p \<in> set (fst (extract_products w rt cfg d)) \<Longrightarrow>
     retailer p = rt \<and> category p = ''Uncategorized'' \<and> availability p = ''Unknown''
     \<and> original_price p = None \<and> discount_percentage p = None
     \<and> product_url p = None \<and> image_url p = None"
proof -
  assume "p \<in> set (fst (extract_products w rt cfg d))"
  then obtain c where "extract_product rt cfg c = Inr p"
    using extract_products_member by blast
  then obtain nm pr where "p = Product nm pr rt"
    using extract_product_defaults by blast
  then show ?thesis by (simp add: Product_def)
qed

theorem product_optional_fields_are_defaults_witness:
  "Product ''Milk 1L'' 19.99 ''pick_n_pay''
     \<in> set (fst (extract_products (uniform_web [milk]) ''pick_n_pay'' pick_n_pay new_session))
   \<and> retailer (Product ''Milk 1L'' 19.99 ''pick_n_pay'') = ''pick_n_pay''
   \<and> category (Product ''Milk 1L'' 19.99 ''pick_n_pay'') = ''Uncategorized''
   \<and> availability (Product ''Milk 1L'' 19.99 ''pick_n_pay'') = ''Unknown''
   \<and> original_price (Product ''Milk 1L'' 19.99 ''pick_n_pay'') = None
   \<and> discount_percentage (Product ''Milk 1L'' 19.99 ''pick_n_pay'') = None
   \<and> product_url (Product ''Milk 1L'' 19.99 ''pick_n_pay'') = None
   \<and> image_url (Product ''Milk 1L'' 19.99 ''pick_n_pay'') = None"
proof -
  have a: "Product ''Milk 1L'' 19.99 ''pick_n_pay''
     \<in> set (fst (extract_products (uniform_web [milk]) ''pick_n_pay'' pick_n_pay new_session))"
    by (simp add: extract_products_uniform extract_milk)
  from a product_optional_fields_are_defaults [OF a] show ?thesis by blast
qed

text \<open>C9, as the spec words it, fails on a container that has a category element: the
  selector for it is configured, the element reads \<^verbatim>\<open>Dairy\<close>, and the product built has
  the category \<^verbatim>\<open>Uncategorized\<close>.\<close>

theorem category_not_read_counterexample:
  "subscript [(''product_container'', ''.product-item''), (''name'', ''.product-name''),
       (''price'', ''.price''), (''category'', ''.category-breadcrumb'')] ''category''
     = Inr ''.category-breadcrumb''
   \<and> milk ''.category-breadcrumb'' = Inr ''Dairy''
   \<and> fst (extract_products (uniform_web [milk]) ''pick_n_pay'' pick_n_pay new_session)
       = [Product ''Milk 1L'' 19.99 ''pick_n_pay'']
   \<and> category (Product ''Milk 1L'' 19.99 ''pick_n_pay'') = ''Uncategorized''"
  by (simp add: extract_products_uniform extract_milk)
    (simp add: milk_def listing_item_def Product_def subscript_def)

text \<open>
  C10. \<^verbatim>\<open>crawl_retailer\<close> with a key the registry does not have returns the empty list,
  raises nothing and leaves the crawler, its driver included, as it was; one error line
  is logged.
\<close>

theorem crawl_retailer_unknown_key:
  "map_of reg retailer_key = None \<Longrightarrow>
     crawl_retailer w reg c retailer_key =
       (Inr [], c,
        [ERROR (if driver c = None then NotInitialized else NoConfiguration retailer_key)])"
  by (simp add: crawl_retailer_def split: option.splits)

theorem crawl_retailer_unknown_key_witness:
  "map_of RETAILERS ''spar'' = None
   \<and> crawl_retailer (uniform_web [milk]) RETAILERS new_crawler ''spar'' =
       (Inr [], new_crawler, [ERROR (NoConfiguration ''spar'')])"
proof -
  have a: "map_of RETAILERS ''spar'' = None"
    by (simp add: RETAILERS_def)
  have b: "driver new_crawler \<noteq> None"
    by (simp add: new_crawler_def)
  from a b crawl_retailer_unknown_key [OF a, of "uniform_web [milk]" new_crawler]
  show ?thesis by simp
qed

subsection \<open>Claims about scrolling and the pages of a retailer\<close>





lemma crawl_retailer_products:
  assumes "driver c = Some d" and "map_of reg retailer_key = Some cfg"
    and "product_pages cfg = Some pages"
  shows "fst (crawl_retailer w reg c retailer_key) =
           Inr (concat (map (\<lambda>pg. case fst (crawl_page w retailer_key cfg pg d0) of
                                     Inr prods \<Rightarrow> prods | Inl e \<Rightarrow> []) pages))"
proof -
  have "\<not> empty_config cfg" using assms(3) by (simp add: empty_config_def)
  then have "fst (crawl_retailer w reg c retailer_key) =
      Inr (fst (crawl_pages w retailer_key cfg pages d [] []))"
    using assms by (simp add: crawl_retailer_def field_def split_beta)
  then show ?thesis
    using crawl_pages_products [of w retailer_key cfg pages d "[]" "[]" d0] by simp
qed

lemma crawl_retailer_logs_failures:
  assumes "driver c = Some d" and "map_of reg retailer_key = Some cfg"
    and "product_pages cfg = Some pages"
    and "pg \<in> set pages" and "fst (crawl_page w retailer_key cfg pg d0) = Inl e"
  shows "ERROR (PageError retailer_key pg e)
           \<in> set (snd (snd (crawl_retailer w reg c retailer_key)))"
proof -
  have "\<not> empty_config cfg" using assms(3) by (simp add: empty_config_def)
  then have "snd (snd (crawl_retailer w reg c retailer_key)) =
      snd (snd (crawl_pages w retailer_key cfg pages d [] []))"
    using assms(1-3) by (simp add: crawl_retailer_def field_def split_beta)
  then show ?thesis
    using crawl_pages_logs_failures [OF assms(4,5), of d "[]" "[]"] by simp
qed

lemma pick_n_pay_strategy:
  "crawl_strategy pick_n_pay = Some
     \<lparr>crawl_method = Some ''selenium'', wait_element = Some ''.product-grid'',
      scroll_pagination = Some True, infinite_scroll = None\<rparr>"
  by (simp add: pick_n_pay_def)

lemma crawl_page_listing_any:
  assumes "w pg = listing cs" and "crawl_strategy cfg = Some strat"
    and "selectors cfg = Some sels"
    and "map_of sels ''product_container'' = Some ''.product-item''"
  shows "fst (crawl_page w key cfg pg d) = Inr (fst (extract_loop key cfg cs [] []))"
proof -
  let ?n = "if scroll_pagination strat = Some True then max_scrolls else 0"
  let ?d3 = "\<lparr>location = pg, scrolled = ?n,
              trace = trace d
                @ [Get pg, Wait (case wait_element strat of None \<Rightarrow> ''body'' | Some sel \<Rightarrow> sel)]
                @ concat (replicate ?n [Scroll, Sleep 2])\<rparr>"
  have page: "crawl_page w key cfg pg d =
      (case extract_products w key cfg ?d3 of (prods, d4, lg) \<Rightarrow> (Inr prods, d4, lg))"
    using crawl_page_loaded [of w pg cfg strat key d] assms(1,2)
    by (simp add: listing_def)
  have "fst (extract_products w key cfg ?d3) = fst (extract_loop key cfg cs [] [])"
    by (rule extract_products_found [OF assms(3,4)]) (simp add: assms(1) listing_def)
  then show ?thesis unfolding page by (simp add: split_beta)
qed

lemma crawl_page_listing:
  assumes "w pg = listing cs"
  shows "fst (crawl_page w ''pick_n_pay'' pick_n_pay pg d) =
           Inr (fst (extract_loop ''pick_n_pay'' pick_n_pay cs [] []))"
  using assms pick_n_pay_strategy pick_n_pay_selectors
    crawl_page_listing_any [where w = w and pg = pg and cs = cs and cfg = pick_n_pay
      and key = "''pick_n_pay''" and d = d
      and strat = "\<lparr>crawl_method = Some ''selenium'', wait_element = Some ''.product-grid'',
        scroll_pagination = Some True, infinite_scroll = None\<rparr>"
      and sels = "[(''product_container'', ''.product-item''),
        (''name'', ''.product-name''), (''price'', ''.price''),
        (''category'', ''.category-breadcrumb'')]"]
  by simp

lemma crawl_page_timing_out:
  assumes "w pg = timing_out"
  shows "fst (crawl_page w ''pick_n_pay'' pick_n_pay pg d) = Inl TimeoutException"
  using crawl_page_wait_fails [of w pg pick_n_pay _ TimeoutException "''pick_n_pay''" d]
    pick_n_pay_strategy assms
  by (simp add: timing_out_def)

lemma pick_n_pay_pages:
  "product_pages pick_n_pay = Some
     [''https://www.pnp.co.za/pnpstorefront/pnp/en/All-Products'',
      ''https://www.pnp.co.za/pnpstorefront/pnp/en/Groceries'',
      ''https://www.pnp.co.za/pnpstorefront/pnp/en/Personal-Care'']"
  by (simp add: pick_n_pay_def)

lemma pnp_web_pages:
  "fst (crawl_page pnp_web ''pick_n_pay'' pick_n_pay
          ''https://www.pnp.co.za/pnpstorefront/pnp/en/All-Products'' d)
     = Inr [Product ''Milk 1L'' 19.99 ''pick_n_pay'']"
  "fst (crawl_page pnp_web ''pick_n_pay'' pick_n_pay
          ''https://www.pnp.co.za/pnpstorefront/pnp/en/Groceries'' d)
     = Inl TimeoutException"
  "fst (crawl_page pnp_web ''pick_n_pay'' pick_n_pay
          ''https://www.pnp.co.za/pnpstorefront/pnp/en/Personal-Care'' d)
     = Inr [Product ''Bread'' 1299.99 ''pick_n_pay'']"
proof -
  show "fst (crawl_page pnp_web ''pick_n_pay'' pick_n_pay
          ''https://www.pnp.co.za/pnpstorefront/pnp/en/All-Products'' d)
     = Inr [Product ''Milk 1L'' 19.99 ''pick_n_pay'']"
    by (subst crawl_page_listing [where cs = "[milk]"])
      (simp_all add: pnp_web_def extract_milk)
  show "fst (crawl_page pnp_web ''pick_n_pay'' pick_n_pay
          ''https://www.pnp.co.za/pnpstorefront/pnp/en/Groceries'' d)
     = Inl TimeoutException"
    by (rule crawl_page_timing_out) (simp add: pnp_web_def)
  show "fst (crawl_page pnp_web ''pick_n_pay'' pick_n_pay
          ''https://www.pnp.co.za/pnpstorefront/pnp/en/Personal-Care'' d)
     = Inr [Product ''Bread'' 1299.99 ''pick_n_pay'']"
    by (subst crawl_page_listing [where cs = "[bread]"])
      (simp_all add: pnp_web_def extract_bread)
qed

lemma quiet_web_pages:
  "fst (crawl_page quiet_web ''pick_n_pay'' pick_n_pay
          ''https://www.pnp.co.za/pnpstorefront/pnp/en/All-Products'' d)
     = Inr [Product ''Milk 1L'' 19.99 ''pick_n_pay'']"
  "fst (crawl_page quiet_web ''pick_n_pay'' pick_n_pay
          ''https://www.pnp.co.za/pnpstorefront/pnp/en/Groceries'' d)
     = Inr []"
  "fst (crawl_page quiet_web ''pick_n_pay'' pick_n_pay
          ''https://www.pnp.co.za/pnpstorefront/pnp/en/Personal-Care'' d)
     = Inr [Product ''Bread'' 1299.99 ''pick_n_pay'']"
proof -
  show "fst (crawl_page quiet_web ''pick_n_pay'' pick_n_pay
          ''https://www.pnp.co.za/pnpstorefront/pnp/en/All-Products'' d)
     = Inr [Product ''Milk 1L'' 19.99 ''pick_n_pay'']"
    by (subst crawl_page_listing [where cs = "[milk]"])
      (simp_all add: quiet_web_def extract_milk)
  show "fst (crawl_page quiet_web ''pick_n_pay'' pick_n_pay
          ''https://www.pnp.co.za/pnpstorefront/pnp/en/Groceries'' d)
     = Inr []"
    by (subst crawl_page_listing [where cs = "[]"])
      (simp_all add: quiet_web_def)
  show "fst (crawl_page quiet_web ''pick_n_pay'' pick_n_pay
          ''https://www.pnp.co.za/pnpstorefront/pnp/en/Personal-Care'' d)
     = Inr [Product ''Bread'' 1299.99 ''pick_n_pay'']"
    by (subst crawl_page_listing [where cs = "[bread]"])
      (simp_all add: quiet_web_def extract_bread)
qed

text \<open>
  C3, as the code has it. A product page whose body raises, by the navigation, by the wait
  timing out or by a scroll, is logged as an error and the loop goes on with the next
  page: \<^verbatim>\<open>crawl_retailer\<close> returns the products of the pages that did not fail, in page
  order, each page yielding what it yields on its own. What is returned is that list and
  nothing else; the code computes no status.
\<close>

theorem crawl_retailer_isolates_pages:
  assumes "driver c = Some d" and "map_of reg retailer_key = Some cfg"
    and "product_pages cfg = Some pages"
  shows "fst (crawl_retailer w reg c retailer_key) =
           Inr (concat (map (\<lambda>pg. case fst (crawl_page w retailer_key cfg pg d) of
                                     Inr prods \<Rightarrow> prods | Inl e \<Rightarrow> []) pages))
         \<and> (\<forall>pg\<in>set pages. \<forall>e. fst (crawl_page w retailer_key cfg pg d) = Inl e \<longrightarrow>
               ERROR (PageError retailer_key pg e)
                 \<in> set (snd (snd (crawl_retailer w reg c retailer_key))))"
  using crawl_retailer_products [OF assms, of w d]
    crawl_retailer_logs_failures [OF assms, of _ w d]
  by blast

theorem crawl_retailer_isolates_pages_witness:
  "driver new_crawler = Some new_session
   \<and> map_of RETAILERS ''pick_n_pay'' = Some pick_n_pay
   \<and> fst (crawl_page pnp_web ''pick_n_pay'' pick_n_pay
        ''https://www.pnp.co.za/pnpstorefront/pnp/en/Groceries'' new_session)
       = Inl TimeoutException
   \<and> fst (crawl_retailer pnp_web RETAILERS new_crawler ''pick_n_pay'') =
       Inr [Product ''Milk 1L'' 19.99 ''pick_n_pay'', Product ''Bread'' 1299.99 ''pick_n_pay'']
   \<and> ERROR (PageError ''pick_n_pay'' ''https://www.pnp.co.za/pnpstorefront/pnp/en/Groceries''
        TimeoutException)
       \<in> set (snd (snd (crawl_retailer pnp_web RETAILERS new_crawler ''pick_n_pay'')))"
proof -
  have a: "driver new_crawler = Some new_session"
    by (simp add: new_crawler_def)
  have b: "map_of RETAILERS ''pick_n_pay'' = Some pick_n_pay"
    by (simp add: RETAILERS_def)
  note r = crawl_retailer_isolates_pages [OF a b pick_n_pay_pages, of pnp_web]
  from r have "fst (crawl_retailer pnp_web RETAILERS new_crawler ''pick_n_pay'') =
       Inr [Product ''Milk 1L'' 19.99 ''pick_n_pay'', Product ''Bread'' 1299.99 ''pick_n_pay'']"
    by (simp add: pnp_web_pages)
  moreover from r have "ERROR (PageError ''pick_n_pay''
        ''https://www.pnp.co.za/pnpstorefront/pnp/en/Groceries'' TimeoutException)
       \<in> set (snd (snd (crawl_retailer pnp_web RETAILERS new_crawler ''pick_n_pay'')))"
    using pnp_web_pages(2) [of new_session] by simp
  ultimately show ?thesis using a b pnp_web_pages(2) [of new_session] by blast
qed

text \<open>
  C3, as the spec words it, promises the overall status \<^verbatim>\<open>partial\<close>. The crawl whose second
  page times out returns the very value that the crawl returns whose second page loads and
  lists nothing: the list of the two products. No status is part of it.
\<close>

theorem no_status_counterexample:
  "fst (crawl_page pnp_web ''pick_n_pay'' pick_n_pay
        ''https://www.pnp.co.za/pnpstorefront/pnp/en/Groceries'' new_session)
     = Inl TimeoutException
   \<and> fst (crawl_retailer pnp_web RETAILERS new_crawler ''pick_n_pay'') =
       Inr [Product ''Milk 1L'' 19.99 ''pick_n_pay'', Product ''Bread'' 1299.99 ''pick_n_pay'']
   \<and> fst (crawl_page quiet_web ''pick_n_pay'' pick_n_pay
        ''https://www.pnp.co.za/pnpstorefront/pnp/en/Groceries'' new_session)
     = Inr []
   \<and> fst (crawl_retailer quiet_web RETAILERS new_crawler ''pick_n_pay'') =
       Inr [Product ''Milk 1L'' 19.99 ''pick_n_pay'', Product ''Bread'' 1299.99 ''pick_n_pay'']"
proof -
  have a: "driver new_crawler = Some new_session"
    by (simp add: new_crawler_def)
  have b: "map_of RETAILERS ''pick_n_pay'' = Some pick_n_pay"
    by (simp add: RETAILERS_def)
  have "fst (crawl_retailer pnp_web RETAILERS new_crawler ''pick_n_pay'') =
       Inr [Product ''Milk 1L'' 19.99 ''pick_n_pay'', Product ''Bread'' 1299.99 ''pick_n_pay'']"
    using crawl_retailer_products [OF a b pick_n_pay_pages, of pnp_web new_session]
    by (simp add: pnp_web_pages)
  moreover have "fst (crawl_retailer quiet_web RETAILERS new_crawler ''pick_n_pay'') =
       Inr [Product ''Milk 1L'' 19.99 ''pick_n_pay'', Product ''Bread'' 1299.99 ''pick_n_pay'']"
    using crawl_retailer_products [OF a b pick_n_pay_pages, of quiet_web new_session]
    by (simp add: quiet_web_pages)
  ultimately show ?thesis
    using pnp_web_pages(2) [of new_session] quiet_web_pages(2) [of new_session] by blast
qed

subsection \<open>The units of work and the collecting loop\<close>

















subsection \<open>Claims about the parallel crawl and the driver\<close>







end
